theory Spec2Isabelle
  imports Main "HOL-Library.AList"
begin

section \<open>Data model\<close>

text \<open>
  The \<open>User\<close> interface of the type declarations. A field marked optional in the
  source (\<open>phone?: string\<close>) is an \<open>option\<close>; \<open>None\<close> stands for an absent field.
  The field \<open>id\<close> is named \<open>id_user\<close> and \<open>locale\<close> is named \<open>locale_user\<close>, the
  plain names being taken in Isabelle.
\<close>

record user =
  id_user :: "int option"
  uuid :: "string option"
  email :: string
  nickname :: string
  avatar_url :: string
  phone :: "string option"
  credits :: "int option"
  created_at :: "string option"
  updated_at :: "string option"
  locale_user :: "string option"
  signin_type :: "string option"
  signin_provider :: "string option"
  signin_openid :: "string option"
  signin_ip :: "string option"
  invite_code :: "string option"
  invited_by :: "string option"
  is_affiliate :: "bool option"

text \<open>
  \<open>Partial<User>\<close>, the argument of \<open>updateUser\<close>: every field of \<open>User\<close> becomes
  optional. A field \<open>f\<close> of \<open>User\<close> is \<open>set_f\<close> here.
\<close>

record user_partial =
  set_id :: "int option"
  set_uuid :: "string option"
  set_email :: "string option"
  set_nickname :: "string option"
  set_avatar_url :: "string option"
  set_phone :: "string option"
  set_credits :: "int option"
  set_created_at :: "string option"
  set_updated_at :: "string option"
  set_locale :: "string option"
  set_signin_type :: "string option"
  set_signin_provider :: "string option"
  set_signin_openid :: "string option"
  set_signin_ip :: "string option"
  set_invite_code :: "string option"
  set_invited_by :: "string option"
  set_is_affiliate :: "bool option"

text \<open>
  A row of the read \<open>select("created_at")\<close>: an object with the one selected column,
  which the source reads as \<open>item.created_at\<close>. \<open>None\<close> is a null column.
\<close>

record created_row =
  created_at :: "string option"

section \<open>Numbers\<close>

text \<open>
  The arguments \<open>page\<close> and \<open>limit\<close> of \<open>getUsers\<close> are JavaScript numbers: IEEE 754
  doubles. They are counts, so the model holds the doubles of integer value,
  \<open>Finite n\<close>, with the two infinities and \<open>NaN\<close>, which arithmetic on such doubles can
  reach; a double with a fractional part is not represented. Every integer up to
  \<open>2 ^ 53\<close> in magnitude is a double; above, a double has 53 significant bits.
\<close>

datatype js_number = Finite int | PosInfinity | NegInfinity | NaN

text \<open>The number of binary digits of a natural number.\<close>

fun bit_length :: "nat \<Rightarrow> nat" where
  "bit_length n = (if n = 0 then 0 else Suc (bit_length (n div 2)))"

text \<open>
  The magnitude of the double nearest to a natural number: the number is cut to its
  53 leading bits, and rounded up when the rest is more than half a unit in the last
  place, or exactly half and the last kept bit is odd (round to nearest, ties to even).
\<close>

definition round_to_double :: "nat \<Rightarrow> nat" where
  "round_to_double a =
     (if a \<le> 2 ^ 53 then a
      else (let e = bit_length a - 53;
                q = a div 2 ^ e;
                r = a mod 2 ^ e;
                half = 2 ^ (e - 1)
            in (if half < r \<or> (r = half \<and> odd q) then q + 1 else q) * 2 ^ e))"

text \<open>
  The double that an arithmetic operation returns when its exact result is the
  integer \<open>n\<close>: the nearest double, and an infinity from \<open>2 ^ 1024\<close> on.
\<close>

definition js_round :: "int \<Rightarrow> js_number" where
  "js_round n =
     (let m = round_to_double (nat \<bar>n\<bar>)
      in if 2 ^ 1024 \<le> m then (if n < 0 then NegInfinity else PosInfinity)
         else Finite (if n < 0 then - int m else int m))"

text \<open>The operators \<open>+\<close>, unary and binary \<open>-\<close>, and \<open>*\<close> on numbers.\<close>

fun js_add :: "js_number \<Rightarrow> js_number \<Rightarrow> js_number" where
  "js_add (Finite a) (Finite b) = js_round (a + b)"
| "js_add NaN y = NaN"
| "js_add x NaN = NaN"
| "js_add PosInfinity NegInfinity = NaN"
| "js_add NegInfinity PosInfinity = NaN"
| "js_add PosInfinity y = PosInfinity"
| "js_add NegInfinity y = NegInfinity"
| "js_add (Finite a) y = y"

fun js_neg :: "js_number \<Rightarrow> js_number" where
  "js_neg (Finite a) = Finite (- a)"
| "js_neg PosInfinity = NegInfinity"
| "js_neg NegInfinity = PosInfinity"
| "js_neg NaN = NaN"

definition js_sub :: "js_number \<Rightarrow> js_number \<Rightarrow> js_number" where
  "js_sub x y = js_add x (js_neg y)"

fun js_sign :: "js_number \<Rightarrow> int" where
  "js_sign (Finite a) = sgn a"
| "js_sign PosInfinity = 1"
| "js_sign NegInfinity = - 1"
| "js_sign NaN = 0"

definition js_mul :: "js_number \<Rightarrow> js_number \<Rightarrow> js_number" where
  "js_mul x y =
     (case (x, y) of
        (Finite a, Finite b) \<Rightarrow> js_round (a * b)
      | _ \<Rightarrow>
          if js_sign x * js_sign y = 0 then NaN
          else if 0 < js_sign x * js_sign y then PosInfinity
          else NegInfinity)"

section \<open>The store handle\<close>

text \<open>
  The functions of \<open>models/user.ts\<close> talk to the hosted store through a query builder:
  a chain of method calls, awaited at the end, which resolves to an object
  \<open>{ data, error }\<close>. A query is the chain of calls in the order the source makes them.
  \<open>Select None\<close> is \<open>.select()\<close> without an argument.
\<close>

datatype call =
    From string
  | Select "string option"
  | Insert "user list"
  | Update user_partial
  | Eq string string
  | Gte string string
  | In string "string list"
  | Order string bool
  | Range js_number js_number
  | Single

type_synonym query = "call list"

text \<open>The error object of a response; the source reads its \<open>code\<close> only.\<close>

record pg_error =
  code :: string
  message :: string

text \<open>
  The awaited response \<open>{ data, error }\<close>; \<open>None\<close> is \<open>null\<close>. The store itself is not
  part of the repository: every function below takes the handle as a parameter
  \<open>exec\<close>, the answer of the store to a query.
\<close>

record 'a response =
  data :: "'a option"
  error :: "pg_error option"

text \<open>
  What a function can throw: the error object of the store (\<open>throw error\<close>), a
  \<open>TypeError\<close> (reading a property of \<open>null\<close> or \<open>undefined\<close>), an \<open>Error\<close> made with
  \<open>new Error(message)\<close>, or the rejection of a request that was awaited.
\<close>

datatype js_error =
    PostgrestError pg_error
  | TypeError
  | Error string
  | Rejected string

text \<open>
  The outcome of an asynchronous data-access function: the value it resolves with
  (\<open>Inr\<close>) or the error it rejects with (\<open>Inl\<close>), the queries it has issued, in order,
  and the lines it wrote with \<open>console.error\<close>.
\<close>

record 'a outcome =
  ret :: "js_error + 'a"
  issued :: "query list"
  logged :: "(string \<times> pg_error) list"

section \<open>Data access layer: \<open>models/user.ts\<close>\<close>

definition insertUser :: "(query \<Rightarrow> user response) \<Rightarrow> user \<Rightarrow> user option outcome" where
  "insertUser exec usr =
     (let q = [From ''users'', Insert [usr], Select None, Single];
          r = exec q
      in case error r of
           Some e \<Rightarrow>
             \<lparr>ret = Inl (PostgrestError e), issued = [q],
              logged = [(''Error inserting user:'', e)]\<rparr>
         | None \<Rightarrow> \<lparr>ret = Inr (data r), issued = [q], logged = []\<rparr>)"

text \<open>
  The query of \<open>findUserByEmail\<close>. \<open>if (provider)\<close>: an absent provider (\<open>None\<close>) and
  the empty string are both falsy, and then no filter on the provider is added.
\<close>

definition findUserByEmail_query :: "string \<Rightarrow> string option \<Rightarrow> query" where
  "findUserByEmail_query mail provider =
     (let query0 = [From ''users'', Select (Some ''*''), Eq ''email'' mail];
          query1 = (case provider of
                      None \<Rightarrow> query0
                    | Some p \<Rightarrow>
                        if p \<noteq> [] then query0 @ [Eq ''signin_provider'' p] else query0)
      in query1 @ [Single])"

definition findUserByEmail ::
  "(query \<Rightarrow> user response) \<Rightarrow> string \<Rightarrow> string option \<Rightarrow> user option outcome" where
  "findUserByEmail exec mail provider =
     (let q = findUserByEmail_query mail provider;
          r = exec q
      in case error r of
           Some e \<Rightarrow>
             if code e \<noteq> ''PGRST116''
             then \<lparr>ret = Inr None, issued = [q],
                   logged = [(''Error finding user by email:'', e)]\<rparr>
             else \<lparr>ret = Inr (data r), issued = [q], logged = []\<rparr>
         | None \<Rightarrow> \<lparr>ret = Inr (data r), issued = [q], logged = []\<rparr>)"

definition findUserByUuid ::
  "(query \<Rightarrow> user response) \<Rightarrow> string \<Rightarrow> user option outcome" where
  "findUserByUuid exec uid =
     (let q = [From ''users'', Select (Some ''*''), Eq ''uuid'' uid, Single];
          r = exec q
      in case error r of
           Some e \<Rightarrow>
             if code e \<noteq> ''PGRST116''
             then \<lparr>ret = Inr None, issued = [q],
                   logged = [(''Error finding user by uuid:'', e)]\<rparr>
             else \<lparr>ret = Inr (data r), issued = [q], logged = []\<rparr>
         | None \<Rightarrow> \<lparr>ret = Inr (data r), issued = [q], logged = []\<rparr>)"

definition updateUser ::
  "(query \<Rightarrow> user response) \<Rightarrow> string \<Rightarrow> user_partial \<Rightarrow> user option outcome" where
  "updateUser exec uid updates =
     (let q = [From ''users'', Update updates, Eq ''uuid'' uid, Select None, Single];
          r = exec q
      in case error r of
           Some e \<Rightarrow>
             \<lparr>ret = Inr None, issued = [q], logged = [(''Error updating user:'', e)]\<rparr>
         | None \<Rightarrow> \<lparr>ret = Inr (data r), issued = [q], logged = []\<rparr>)"

subsection \<open>\<open>getUserCountByDate\<close>\<close>

text \<open>
  \<open>s.split(c)\<close> for a separator of one character: the pieces of \<open>s\<close> between the
  occurrences of \<open>c\<close>; the empty string splits into one empty piece.
\<close>

fun split_js :: "char \<Rightarrow> string \<Rightarrow> string list" where
  "split_js c [] = [[]]"
| "split_js c (x # xs) =
     (if x = c then [] # split_js c xs
      else (case split_js c xs of
              [] \<Rightarrow> [[x]]
            | w # ws \<Rightarrow> (x # w) # ws))"

text \<open>\<open>xs[0]\<close>: the first element, \<open>undefined\<close> (\<open>None\<close>) on an empty array.\<close>

definition index0 :: "'a list \<Rightarrow> 'a option" where
  "index0 xs = (case xs of [] \<Rightarrow> None | x # _ \<Rightarrow> Some x)"

text \<open>
  The \<open>Map<string, number>\<close> keeps its keys in insertion order: an association list,
  where \<open>set\<close> replaces the value of a key that is present and appends a new key
  otherwise (\<open>AList.update\<close>). A key is the value of \<open>split("T")[0]\<close>.
\<close>

type_synonym date_map = "(string option \<times> nat) list"

text \<open>\<open>dateCountMap.get(date) || 0\<close>: an absent key and a count of 0 both give 0.\<close>

definition get_or_0 :: "date_map \<Rightarrow> string option \<Rightarrow> nat" where
  "get_or_0 m k = (case map_of m k of None \<Rightarrow> 0 | Some n \<Rightarrow> (if n = 0 then 0 else n))"

text \<open>
  \<open>date_of\<close> is the right-hand side of \<open>const date\<close>, and \<open>count_dates\<close> the body of
  \<open>data.forEach\<close>, run over the rows in order. Reading \<open>split\<close> of a null
  \<open>created_at\<close> raises a \<open>TypeError\<close>, which ends the loop.
\<close>

definition date_of :: "string \<Rightarrow> string option" where
  "date_of ts = index0 (split_js (CHR ''T'') ts)"

fun count_dates :: "created_row list \<Rightarrow> date_map \<Rightarrow> js_error + date_map" where
  "count_dates [] m = Inr m"
| "count_dates (item # items) m =
     (case created_at item of
        None \<Rightarrow> Inl TypeError
      | Some ts \<Rightarrow>
          (let date = date_of ts
           in count_dates items (AList.update date (get_or_0 m date + 1) m)))"

definition getUserCountByDate ::
  "(query \<Rightarrow> created_row list response) \<Rightarrow> string \<Rightarrow> date_map option outcome" where
  "getUserCountByDate exec startTime =
     (let q = [From ''users'', Select (Some ''created_at''), Gte ''created_at'' startTime,
               Order ''created_at'' True];
          r = exec q
      in case error r of
           Some e \<Rightarrow> \<lparr>ret = Inr None, issued = [q], logged = []\<rparr>
         | None \<Rightarrow>
             (case data r of
                None \<Rightarrow> \<lparr>ret = Inl TypeError, issued = [q], logged = []\<rparr>
              | Some rows \<Rightarrow>
                  (case count_dates rows [] of
                     Inl err \<Rightarrow> \<lparr>ret = Inl err, issued = [q], logged = []\<rparr>
                   | Inr m \<Rightarrow> \<lparr>ret = Inr (Some m), issued = [q], logged = []\<rparr>)))"

subsection \<open>\<open>getUsers\<close> and \<open>getUsersByUuids\<close>\<close>

text \<open>
  \<open>page: number = 1, limit: number = 50\<close>: an omitted argument (\<open>None\<close>) takes its
  default. \<open>(page - 1) * limit\<close> and \<open>offset + limit - 1\<close> are computed on numbers, each
  operation rounding to a double.
\<close>

definition getUsers ::
  "(query \<Rightarrow> user list response) \<Rightarrow> js_number option \<Rightarrow> js_number option
     \<Rightarrow> user list option outcome" where
  "getUsers exec page_arg limit_arg =
     (let page = (case page_arg of None \<Rightarrow> Finite 1 | Some p \<Rightarrow> p);
          limit = (case limit_arg of None \<Rightarrow> Finite 50 | Some l \<Rightarrow> l);
          offset = js_mul (js_sub page (Finite 1)) limit;
          q = [From ''users'', Select (Some ''*''), Order ''created_at'' False,
               Range offset (js_sub (js_add offset limit) (Finite 1))];
          r = exec q
      in case error r of
           Some e \<Rightarrow>
             \<lparr>ret = Inr (Some []), issued = [q], logged = [(''Error fetching users:'', e)]\<rparr>
         | None \<Rightarrow> \<lparr>ret = Inr (data r), issued = [q], logged = []\<rparr>)"

text \<open>\<open>!uuids || uuids.length === 0\<close>: a missing array (\<open>None\<close>) or an empty one.\<close>

definition getUsersByUuids ::
  "(query \<Rightarrow> user list response) \<Rightarrow> string list option \<Rightarrow> user list option outcome" where
  "getUsersByUuids exec uuids =
     (case uuids of
        None \<Rightarrow> \<lparr>ret = Inr (Some []), issued = [], logged = []\<rparr>
      | Some us \<Rightarrow>
          if length us = 0 then \<lparr>ret = Inr (Some []), issued = [], logged = []\<rparr>
          else
            (let q = [From ''users'', Select (Some ''*''), In ''uuid'' us];
                 r = exec q
             in case error r of
                  Some e \<Rightarrow>
                    \<lparr>ret = Inr (Some []), issued = [q],
                     logged = [(''Error fetching users by uuids:'', e)]\<rparr>
                | None \<Rightarrow> \<lparr>ret = Inr (data r), issued = [q], logged = []\<rparr>))"

section \<open>Generation task poller\<close>

text \<open>
  The task-based generation pattern: create a task, then poll its status. The two
  endpoints are outside the repository; what they answer is a parameter. The body of
  an answer is read through its \<open>data\<close> field only, so an answer is that field
  (\<open>None\<close> when the body has none), or the error the request rejects with (\<open>Inl\<close>).
\<close>

record created_task =
  id_task :: "string option"

record task_data =
  status :: string
  progress :: "int option"
  results :: "string list option"

definition maxAttempts :: nat where
  "maxAttempts = 120"

definition pollInterval :: nat where
  "pollInterval = 2000"

text \<open>
  A run of the poller: what it returns (\<open>Inr\<close>, with \<open>None\<close> for \<open>undefined\<close>) or throws
  (\<open>Inl\<close>), the milliseconds spent in \<open>setTimeout\<close>, the number of status requests
  made, and the progress values written with \<open>console.log\<close>.
\<close>

record poll_run =
  result :: "js_error + string option"
  elapsed :: nat
  attempts :: nat
  progress_log :: "int option list"

text \<open>
  The \<open>for\<close> loop from \<open>attempt\<close> on; \<open>fetch_status i\<close> is the answer to the status
  request of iteration \<open>i\<close> (counted from 0).
\<close>

function poll_loop ::
  "(nat \<Rightarrow> js_error + task_data option) \<Rightarrow> nat \<Rightarrow> nat \<Rightarrow> int option list \<Rightarrow> poll_run" where
  "poll_loop fetch_status attempt clock plog =
     (if attempt < maxAttempts then
        (let clock' = clock + pollInterval
         in case fetch_status attempt of
              Inl e \<Rightarrow>
                \<lparr>result = Inl e, elapsed = clock', attempts = attempt + 1,
                 progress_log = plog\<rparr>
            | Inr None \<Rightarrow>
                \<lparr>result = Inl TypeError, elapsed = clock', attempts = attempt + 1,
                 progress_log = plog\<rparr>
            | Inr (Some taskData) \<Rightarrow>
                if status taskData = ''completed'' then
                  (case results taskData of
                     None \<Rightarrow>
                       \<lparr>result = Inl TypeError, elapsed = clock', attempts = attempt + 1,
                        progress_log = plog\<rparr>
                   | Some rs \<Rightarrow>
                       \<lparr>result = Inr (index0 rs), elapsed = clock', attempts = attempt + 1,
                        progress_log = plog\<rparr>)
                else if status taskData = ''failed'' then
                  \<lparr>result = Inl (Error ''Generation failed''), elapsed = clock',
                   attempts = attempt + 1, progress_log = plog\<rparr>
                else poll_loop fetch_status (attempt + 1) clock' (plog @ [progress taskData]))
      else
        \<lparr>result = Inl (Error ''Task timeout''), elapsed = clock, attempts = attempt,
         progress_log = plog\<rparr>)"
  by pat_completeness auto
termination
  by (relation "measure (\<lambda>(f, attempt, clock, plog). maxAttempts - attempt)") auto

text \<open>The address of the status request: the template literal with the task id.\<close>

definition task_url :: "string option \<Rightarrow> string" where
  "task_url taskId =
     ''/api/ai/evolink/task/'' @ (case taskId of None \<Rightarrow> ''undefined'' | Some t \<Rightarrow> t)"

text \<open>
  The whole pattern: \<open>created\<close> is the answer of the creation request, \<open>fetch_status\<close>
  the answers of the status endpoint by address and iteration.
\<close>

definition poller ::
  "(js_error + created_task option) \<Rightarrow> (string \<Rightarrow> nat \<Rightarrow> js_error + task_data option)
     \<Rightarrow> poll_run" where
  "poller created fetch_status =
     (case created of
        Inl e \<Rightarrow> \<lparr>result = Inl e, elapsed = 0, attempts = 0, progress_log = []\<rparr>
      | Inr None \<Rightarrow> \<lparr>result = Inl TypeError, elapsed = 0, attempts = 0, progress_log = []\<rparr>
      | Inr (Some d) \<Rightarrow> poll_loop (fetch_status (task_url (id_task d))) 0 0 [])"

section \<open>The single-row read over a table\<close>

text \<open>
  The store is not part of the repository, and the functions above take its answers
  as a parameter. What the finders return when several rows match depends on how a
  single-row read (\<open>.single()\<close>) answers then, so that read is written out here over a
  table of users, after the contract of the store's client: the rows that pass the
  filters of the query are selected; exactly one row is answered as the data; no row
  and several rows alike are answered with the error of code \<open>PGRST116\<close> and no data.
  Of the filters, the equalities on \<open>email\<close>, \<open>signin_provider\<close> and \<open>uuid\<close> are read,
  the columns the finders filter on.
\<close>

definition several_or_no_rows :: pg_error where
  "several_or_no_rows =
     \<lparr>code = ''PGRST116'',
      message = ''JSON object requested, multiple (or no) rows returned''\<rparr>"

definition single_read :: "user list \<Rightarrow> user response" where
  "single_read rows =
     (case rows of
        [row] \<Rightarrow> \<lparr>data = Some row, error = None\<rparr>
      | _ \<Rightarrow> \<lparr>data = None, error = Some several_or_no_rows\<rparr>)"

fun row_matches :: "user \<Rightarrow> call \<Rightarrow> bool" where
  "row_matches u (Eq column v) =
     (if column = ''email'' then email u = v
      else if column = ''signin_provider'' then signin_provider u = Some v
      else if column = ''uuid'' then uuid u = Some v
      else True)"
| "row_matches u c = True"

definition table_store :: "user list \<Rightarrow> query \<Rightarrow> user response" where
  "table_store tbl q = single_read (filter (\<lambda>u. list_all (row_matches u) q) tbl)"

section \<open>Example values\<close>

text \<open>
  A user record before and after it is stored, a partial update, and three store
  handles: one that answers every query with a given row, one that answers with given
  rows, and one that answers with an error of a given code and no data.
\<close>

definition alice :: user where
  "alice = \<lparr>id_user = None, uuid = Some ''u-1'', email = ''alice@example.com'',
     nickname = ''alice'', avatar_url = ''https://example.com/a.png'', phone = None,
     credits = None, created_at = None, updated_at = None, locale_user = Some ''en'',
     signin_type = Some ''oauth'', signin_provider = Some ''google'',
     signin_openid = None, signin_ip = None, invite_code = None, invited_by = None,
     is_affiliate = None\<rparr>"

definition alice_stored :: user where
  "alice_stored = alice\<lparr>id_user := Some 7, user.created_at := Some ''2024-01-01T03:00:00Z''\<rparr>"

definition rename_alice :: user_partial where
  "rename_alice = \<lparr>set_id = None, set_uuid = None, set_email = None,
     set_nickname = Some ''alice2'', set_avatar_url = None, set_phone = None,
     set_credits = None, set_created_at = None, set_updated_at = None, set_locale = None,
     set_signin_type = None, set_signin_provider = None, set_signin_openid = None,
     set_signin_ip = None, set_invite_code = None, set_invited_by = None,
     set_is_affiliate = None\<rparr>"

definition answers_row :: "user \<Rightarrow> query \<Rightarrow> user response" where
  "answers_row row q = \<lparr>data = Some row, error = None\<rparr>"

definition answers_rows :: "'a list \<Rightarrow> query \<Rightarrow> 'a list response" where
  "answers_rows rows q = \<lparr>data = Some rows, error = None\<rparr>"

definition answers_error :: "string \<Rightarrow> query \<Rightarrow> 'a response" where
  "answers_error c q = \<lparr>data = None, error = Some \<lparr>code = c, message = ''''\<rparr>\<rparr>"

text \<open>
  A second row with the email of \<open>alice_stored\<close> under another provider, a second row
  with its uuid, and the answers of a store that holds \<open>alice_stored\<close> alone to the
  single-row reads by email: the read by the email, with no provider or with
  \<open>google\<close>, finds the row, and any other read finds none.
\<close>

definition alice_github :: user where
  "alice_github = alice_stored\<lparr>id_user := Some 8, uuid := Some ''u-2'',
     signin_provider := Some ''github''\<rparr>"

definition alice_twin :: user where
  "alice_twin = alice_stored\<lparr>id_user := Some 9, email := ''alice@example.org''\<rparr>"

definition alice_google_only :: "query \<Rightarrow> user response" where
  "alice_google_only q =
     (if q = [From ''users'', Select (Some ''*''), Eq ''email'' ''alice@example.com'', Single]
         \<or> q = [From ''users'', Select (Some ''*''), Eq ''email'' ''alice@example.com'',
                 Eq ''signin_provider'' ''google'', Single]
      then \<lparr>data = Some alice_stored, error = None\<rparr>
      else \<lparr>data = None, error = Some \<lparr>code = ''PGRST116'', message = []\<rparr>\<rparr>)"

section \<open>Auxiliary facts\<close>

subsection \<open>Splitting a timestamp and counting dates\<close>

lemma split_js_nonempty: "split_js c s \<noteq> []"
  by (induction s) (auto split: list.splits)

lemma index0_split_js: "index0 (split_js c s) = Some (takeWhile (\<lambda>x. x \<noteq> c) s)"
proof (induction s)
  case Nil
  show ?case by (simp add: index0_def)
next
  case (Cons x xs)
  then show ?case
    by (cases "split_js c xs") (auto simp: index0_def)
qed

lemma takeWhile_upto: "c \<notin> set d \<Longrightarrow> takeWhile (\<lambda>x. x \<noteq> c) (d @ c # t) = d"
  by (induction d) auto

lemma date_of_iso: "CHR ''T'' \<notin> set d \<Longrightarrow> date_of (d @ ''T'' @ t) = Some d"
  by (simp add: date_of_def index0_split_js takeWhile_upto del: split_js.simps)

lemma get_or_0_update:
  "get_or_0 (AList.update d v m) k = (if k = d then v else get_or_0 m k)"
  by (simp add: get_or_0_def update_conv')

lemma count_dates_lookup:
  "\<exists>m'. count_dates (map (\<lambda>ts. \<lparr>created_at = Some ts\<rparr>) tss) m = Inr m' \<and>
     (\<forall>k. map_of m' k =
        (if length (filter (\<lambda>ts. date_of ts = k) tss) = 0 then map_of m k
         else Some (get_or_0 m k + length (filter (\<lambda>ts. date_of ts = k) tss))))"
proof (induction tss arbitrary: m)
  case Nil
  show ?case by simp
next
  case (Cons ts tss)
  let ?d = "date_of ts"
  let ?m1 = "AList.update ?d (get_or_0 m ?d + 1) m"
  from Cons.IH [of ?m1] obtain m' where
    run: "count_dates (map (\<lambda>ts. \<lparr>created_at = Some ts\<rparr>) tss) ?m1 = Inr m'" and
    look: "\<And>k. map_of m' k =
        (if length (filter (\<lambda>ts. date_of ts = k) tss) = 0 then map_of ?m1 k
         else Some (get_or_0 ?m1 k + length (filter (\<lambda>ts. date_of ts = k) tss)))"
    by blast
  have "count_dates (map (\<lambda>ts. \<lparr>created_at = Some ts\<rparr>) (ts # tss)) m = Inr m'"
    using run by (simp add: Let_def)
  moreover have "map_of m' k =
        (if length (filter (\<lambda>ts. date_of ts = k) (ts # tss)) = 0 then map_of m k
         else Some (get_or_0 m k + length (filter (\<lambda>ts. date_of ts = k) (ts # tss))))" for k
    using look [of k] by (simp add: get_or_0_update update_conv')
  ultimately show ?case by blast
qed

lemma sum_list_update:
  "distinct (map fst m) \<Longrightarrow>
   sum_list (map snd (AList.update k v m)) + (case map_of m k of None \<Rightarrow> 0 | Some n \<Rightarrow> n)
     = sum_list (map snd m) + (v::nat)"
proof (induction m)
  case Nil
  show ?case by simp
next
  case (Cons p m)
  show ?case
  proof (cases "fst p = k")
    case True
    with Cons.prems have "map_of m k = None"
      by (simp add: map_of_eq_None_iff)
    with True show ?thesis by simp
  next
    case False
    with Cons show ?thesis by simp
  qed
qed

lemma set_update_subset: "set (AList.update k v m) \<subseteq> insert (k, v) (set m)"
  by (induction m) auto

lemma count_dates_inv:
  "count_dates rows m = Inr m' \<Longrightarrow> distinct (map fst m) \<Longrightarrow> \<forall>p\<in>set m. 1 \<le> snd p \<Longrightarrow>
   distinct (map fst m') \<and> (\<forall>p\<in>set m'. 1 \<le> snd p) \<and>
   sum_list (map snd m') = sum_list (map snd m) + length rows"
proof (induction rows arbitrary: m)
  case Nil
  then show ?case by simp
next
  case (Cons item items)
  from Cons.prems(1) obtain ts where ts: "created_at item = Some ts"
    by (cases "created_at item") auto
  let ?d = "date_of ts"
  let ?m1 = "AList.update ?d (get_or_0 m ?d + 1) m"
  have run: "count_dates items ?m1 = Inr m'"
    using Cons.prems(1) ts by (simp add: Let_def)
  have d1: "distinct (map fst ?m1)"
    using Cons.prems(2) by (simp add: distinct_update)
  have p1: "\<forall>p\<in>set ?m1. 1 \<le> snd p"
    using Cons.prems(3) set_update_subset [of ?d "get_or_0 m ?d + 1" m] by auto
  have g: "get_or_0 m ?d = (case map_of m ?d of None \<Rightarrow> 0 | Some n \<Rightarrow> n)"
    by (simp add: get_or_0_def split: option.splits)
  have s1: "sum_list (map snd ?m1) = sum_list (map snd m) + 1"
    using sum_list_update [OF Cons.prems(2), of ?d "get_or_0 m ?d + 1"] g by simp
  from Cons.IH [OF run d1 p1] s1 show ?case by simp
qed

subsection \<open>Arithmetic on numbers\<close>

declare bit_length.simps [simp del]

lemma bit_length_eq: "2 ^ k \<le> n \<Longrightarrow> n < 2 ^ (k + 1) \<Longrightarrow> bit_length n = k + 1"
proof (induction k arbitrary: n)
  case 0
  then have "n = 1" by simp
  then show ?case by (simp add: bit_length.simps [of "Suc 0"] bit_length.simps [of 0])
next
  case (Suc k)
  from Suc.prems have "2 ^ k \<le> n div 2" and "n div 2 < 2 ^ (k + 1)"
    by simp_all
  then have "bit_length (n div 2) = k + 1" by (rule Suc.IH)
  moreover from Suc.prems have "n \<noteq> 0" by auto
  ultimately show ?case by (simp add: bit_length.simps [of n])
qed

lemma js_round_exact: "\<bar>n\<bar> \<le> 2 ^ 53 \<Longrightarrow> js_round n = Finite n"
proof -
  assume a: "\<bar>n\<bar> \<le> 2 ^ 53"
  then have le: "nat \<bar>n\<bar> \<le> 2 ^ 53"
    by (simp add: nat_le_iff)
  then have r: "round_to_double (nat \<bar>n\<bar>) = nat \<bar>n\<bar>"
    by (simp add: round_to_double_def)
  have "(2::nat) ^ 53 < 2 ^ 1024"
    by (rule power_strict_increasing) simp_all
  with le have "\<not> 2 ^ 1024 \<le> nat \<bar>n\<bar>" by linarith
  with r show ?thesis
    by (simp add: js_round_def Let_def)
qed

lemma below_overflow: "\<not> (2::nat) ^ 1024 \<le> 18014398509481984"
proof -
  have "(2::nat) ^ 54 < 2 ^ 1024"
    by (rule power_strict_increasing) simp_all
  then show ?thesis by simp
qed

lemma js_round_2_54: "js_round 18014398509481984 = Finite 18014398509481984"
proof -
  have "bit_length 18014398509481984 = 54 + 1"
    by (rule bit_length_eq) simp_all
  then have "round_to_double 18014398509481984 = 18014398509481984"
    by (simp add: round_to_double_def Let_def)
  with below_overflow show ?thesis
    by (simp add: js_round_def Let_def del: power_numeral)
qed

lemma js_round_2_54_less_1: "js_round 18014398509481983 = Finite 18014398509481984"
proof -
  have "bit_length 18014398509481983 = 53 + 1"
    by (rule bit_length_eq) simp_all
  then have "round_to_double 18014398509481983 = 18014398509481984"
    by (simp add: round_to_double_def Let_def)
  with below_overflow show ?thesis
    by (simp add: js_round_def Let_def del: power_numeral)
qed

lemma js_ops_exact:
  assumes "\<bar>a\<bar> \<le> 2 ^ 53" and "\<bar>b\<bar> \<le> 2 ^ 53"
  shows "\<bar>a + b\<bar> \<le> 2 ^ 53 \<Longrightarrow> js_add (Finite a) (Finite b) = Finite (a + b)"
    and "\<bar>a - b\<bar> \<le> 2 ^ 53 \<Longrightarrow> js_sub (Finite a) (Finite b) = Finite (a - b)"
    and "\<bar>a * b\<bar> \<le> 2 ^ 53 \<Longrightarrow> js_mul (Finite a) (Finite b) = Finite (a * b)"
  by (simp_all add: js_sub_def js_mul_def js_round_exact del: power_numeral)

subsection \<open>The single-row read\<close>

lemma single_read_several:
  "1 < length rows \<Longrightarrow> single_read rows = \<lparr>data = None, error = Some several_or_no_rows\<rparr>"
  by (cases rows) (auto simp: single_read_def split: list.splits)

lemma findUserByEmail_query_matches:
  "list_all (row_matches u) (findUserByEmail_query mail provider) =
     (email u = mail \<and>
      (case provider of None \<Rightarrow> True | Some p \<Rightarrow> p = [] \<or> signin_provider u = Some p))"
  by (auto simp: findUserByEmail_query_def Let_def split: option.splits)

subsection \<open>The polling loop\<close>

declare poll_loop.simps [simp del]

lemma poll_loop_skip:
  "attempt + k \<le> maxAttempts \<Longrightarrow>
   \<forall>i<k. \<exists>td. fetch (attempt + i) = Inr (Some td) \<and> status td \<noteq> ''completed'' \<and> status td \<noteq> ''failed'' \<Longrightarrow>
   \<exists>plog'. poll_loop fetch attempt clock plog = poll_loop fetch (attempt + k) (clock + k * pollInterval) plog'"
proof (induction k arbitrary: attempt clock plog)
  case 0
  then show ?case by auto
next
  case (Suc k)
  from Suc.prems(2) obtain td where td: "fetch attempt = Inr (Some td)"
    "status td \<noteq> ''completed''" "status td \<noteq> ''failed''"
    by force
  have lt: "attempt < maxAttempts" using Suc.prems(1) by simp
  have step: "poll_loop fetch attempt clock plog =
      poll_loop fetch (attempt + 1) (clock + pollInterval) (plog @ [progress td])"
    using td lt by (subst poll_loop.simps) (simp add: Let_def)
  have "\<forall>i<k. \<exists>td. fetch (attempt + 1 + i) = Inr (Some td) \<and> status td \<noteq> ''completed'' \<and> status td \<noteq> ''failed''"
  proof (intro allI impI)
    fix i assume "i < k"
    then have "Suc i < Suc k" by simp
    with Suc.prems(2) show "\<exists>td. fetch (attempt + 1 + i) = Inr (Some td) \<and> status td \<noteq> ''completed'' \<and> status td \<noteq> ''failed''"
      by (metis add.assoc plus_1_eq_Suc)
  qed
  moreover have "attempt + 1 + k \<le> maxAttempts" using Suc.prems(1) by simp
  ultimately obtain plog' where
    "poll_loop fetch (attempt + 1) (clock + pollInterval) (plog @ [progress td]) =
     poll_loop fetch (attempt + 1 + k) (clock + pollInterval + k * pollInterval) plog'"
    using Suc.IH by blast
  with step show ?case by (auto simp: algebra_simps)
qed


lemma poll_loop_budget:
  "poll_loop fetch maxAttempts clock plog =
     \<lparr>result = Inl (Error ''Task timeout''), elapsed = clock, attempts = maxAttempts,
      progress_log = plog\<rparr>"
  by (subst poll_loop.simps) simp

lemma poll_loop_completed:
  "attempt < maxAttempts \<Longrightarrow> fetch attempt = Inr (Some td) \<Longrightarrow> status td = ''completed'' \<Longrightarrow>
   results td = Some rs \<Longrightarrow>
   poll_loop fetch attempt clock plog =
     \<lparr>result = Inr (index0 rs), elapsed = clock + pollInterval, attempts = attempt + 1,
      progress_log = plog\<rparr>"
  by (subst poll_loop.simps) (simp add: Let_def)

lemma poll_loop_result_completed:
  "result (poll_loop fetch attempt clock plog) = Inr v \<Longrightarrow>
   \<exists>i<maxAttempts. \<exists>td. fetch i = Inr (Some td) \<and> status td = ''completed''"
proof (induction fetch attempt clock plog rule: poll_loop.induct)
  case (1 fetch attempt clock plog)
  show ?case
  proof (cases "attempt < maxAttempts")
    case False
    with "1.prems" show ?thesis by (subst (asm) poll_loop.simps) simp
  next
    case lt: True
    show ?thesis
    proof (cases "fetch attempt")
      case (Inl e)
      with lt "1.prems" show ?thesis by (subst (asm) poll_loop.simps) (simp add: Let_def)
    next
      case (Inr reply)
      show ?thesis
      proof (cases reply)
        case None
        with Inr lt "1.prems" show ?thesis by (subst (asm) poll_loop.simps) (simp add: Let_def)
      next
        case (Some td)
        show ?thesis
        proof (cases "status td = ''completed''")
          case True
          with Inr Some lt show ?thesis by blast
        next
          case nc: False
          show ?thesis
          proof (cases "status td = ''failed''")
            case True
            with nc Inr Some lt "1.prems" show ?thesis
              by (subst (asm) poll_loop.simps) (simp add: Let_def)
          next
            case nf: False
            have "poll_loop fetch attempt clock plog =
                  poll_loop fetch (attempt + 1) (clock + pollInterval) (plog @ [progress td])"
              using nc nf Inr Some lt by (subst poll_loop.simps) (simp add: Let_def)
            with "1.prems" have "result (poll_loop fetch (attempt + 1) (clock + pollInterval)
                (plog @ [progress td])) = Inr v" by simp
            from "1.IH" [OF lt refl Inr Some nc nf this] show ?thesis .
          qed
        qed
      qed
    qed
  qed
qed

section \<open>Properties of the poller\<close>

text \<open>
  C1. If the creation request succeeds with a task id, the first \<open>k\<close> status polls
  (\<open>k < 120\<close>) answer \<open>processing\<close> and poll \<open>k + 1\<close> answers \<open>completed\<close> with a
  non-empty \<open>results\<close> list, the poller returns the first element of \<open>results\<close>, after
  exactly \<open>k + 1\<close> waits of 2000 ms and \<open>k + 1\<close> status requests: each request is
  preceded by one wait.
\<close>

theorem poller_yields_first_result:
  assumes "k < 120"
    and "created = Inr (Some \<lparr>id_task = Some tid\<rparr>)"
    and "\<forall>i<k. \<exists>td. fetch_status (''/api/ai/evolink/task/'' @ tid) i = Inr (Some td) \<and>
                     status td = ''processing''"
    and "fetch_status (''/api/ai/evolink/task/'' @ tid) k = Inr (Some td)"
    and "status td = ''completed''"
    and "results td = Some (r # rs)"
  shows "result (poller created fetch_status) = Inr (Some r) \<and>
         elapsed (poller created fetch_status) = (k + 1) * 2000 \<and>
         attempts (poller created fetch_status) = k + 1"
proof -
  let ?f = "fetch_status (''/api/ai/evolink/task/'' @ tid)"
  have run: "poller created fetch_status = poll_loop ?f 0 0 []"
    using assms(2) by (simp add: poller_def task_url_def)
  have "\<forall>i<k. \<exists>td. ?f (0 + i) = Inr (Some td) \<and> status td \<noteq> ''completed'' \<and>
          status td \<noteq> ''failed''"
    using assms(3) by auto
  moreover have "0 + k \<le> maxAttempts"
    using assms(1) by (simp add: maxAttempts_def)
  ultimately obtain plog' where
    "poll_loop ?f 0 0 [] = poll_loop ?f (0 + k) (0 + k * pollInterval) plog'"
    using poll_loop_skip [of 0 k ?f 0 "[]"] by blast
  moreover have "k < maxAttempts"
    using assms(1) by (simp add: maxAttempts_def)
  then have "poll_loop ?f k (k * pollInterval) plog' =
      \<lparr>result = Inr (index0 (r # rs)), elapsed = k * pollInterval + pollInterval,
       attempts = k + 1, progress_log = plog'\<rparr>"
    using assms(4) assms(5) assms(6) by (rule poll_loop_completed)
  ultimately have "poll_loop ?f 0 0 [] =
      \<lparr>result = Inr (index0 (r # rs)), elapsed = k * pollInterval + pollInterval,
       attempts = k + 1, progress_log = plog'\<rparr>"
    by simp
  with run show ?thesis
    by (simp add: index0_def pollInterval_def)
qed

theorem poller_yields_first_result_witness:
  "result (poller (Inr (Some \<lparr>id_task = Some ''t1''\<rparr>))
     (\<lambda>url i. if url = ''/api/ai/evolink/task/t1'' \<and> i < 3
        then Inr (Some \<lparr>status = ''processing'', progress = Some 40, results = None\<rparr>)
        else Inr (Some \<lparr>status = ''completed'', progress = Some 100,
                         results = Some [''url1'']\<rparr>))) = Inr (Some ''url1'') \<and>
   elapsed (poller (Inr (Some \<lparr>id_task = Some ''t1''\<rparr>))
     (\<lambda>url i. if url = ''/api/ai/evolink/task/t1'' \<and> i < 3
        then Inr (Some \<lparr>status = ''processing'', progress = Some 40, results = None\<rparr>)
        else Inr (Some \<lparr>status = ''completed'', progress = Some 100,
                         results = Some [''url1'']\<rparr>))) = 8000"
  using poller_yields_first_result [of 3 "Inr (Some \<lparr>id_task = Some ''t1''\<rparr>)" "''t1''"
     "\<lambda>url i. if url = ''/api/ai/evolink/task/t1'' \<and> i < 3
        then Inr (Some \<lparr>status = ''processing'', progress = Some 40, results = None\<rparr>)
        else Inr (Some \<lparr>status = ''completed'', progress = Some 100,
                         results = Some [''url1'']\<rparr>)"
     "\<lparr>status = ''completed'', progress = Some 100, results = Some [''url1'']\<rparr>"
     "''url1''" "[]"]
  by simp

text \<open>
  C2. If every one of the 120 status polls answers a non-terminal status (\<open>pending\<close> or
  \<open>processing\<close>), the poller leaves the loop after exactly 120 iterations (120 status
  requests, 120 waits of 2000 ms), throws the timeout error and returns no artifact.
  Conversely, a run that returns a value has seen a poll within the budget answer
  \<open>completed\<close>: no run both exhausts the budget and returns a result.
\<close>

theorem poller_times_out:
  "(created = Inr (Some d) \<and>
    (\<forall>i<120. \<exists>td. fetch_status (task_url (id_task d)) i = Inr (Some td) \<and>
                 (status td = ''pending'' \<or> status td = ''processing''))
    \<longrightarrow> result (poller created fetch_status) = Inl (Error ''Task timeout'') \<and>
        attempts (poller created fetch_status) = 120 \<and>
        elapsed (poller created fetch_status) = 120 * 2000 \<and>
        (\<forall>v. result (poller created fetch_status) \<noteq> Inr v)) \<and>
   (created = Inr (Some d) \<and> result (poller created fetch_status) = Inr v
    \<longrightarrow> (\<exists>i<120. \<exists>td. fetch_status (task_url (id_task d)) i = Inr (Some td) \<and>
                 status td = ''completed''))"
proof (intro conjI impI)
  assume a: "created = Inr (Some d) \<and>
    (\<forall>i<120. \<exists>td. fetch_status (task_url (id_task d)) i = Inr (Some td) \<and>
                 (status td = ''pending'' \<or> status td = ''processing''))"
  let ?f = "fetch_status (task_url (id_task d))"
  have run: "poller created fetch_status = poll_loop ?f 0 0 []"
    using a by (simp add: poller_def)
  have "\<forall>i<maxAttempts. \<exists>td. ?f (0 + i) = Inr (Some td) \<and> status td \<noteq> ''completed'' \<and>
          status td \<noteq> ''failed''"
    using a by (auto simp: maxAttempts_def)
  then obtain plog' where
    "poll_loop ?f 0 0 [] = poll_loop ?f (0 + maxAttempts) (0 + maxAttempts * pollInterval) plog'"
    using poll_loop_skip [of 0 maxAttempts ?f 0 "[]"] by auto
  then have eq: "poller created fetch_status =
      \<lparr>result = Inl (Error ''Task timeout''), elapsed = maxAttempts * pollInterval,
       attempts = maxAttempts, progress_log = plog'\<rparr>"
    using run by (simp add: poll_loop_budget)
  show "result (poller created fetch_status) = Inl (Error ''Task timeout'')"
    using eq by simp
  show "attempts (poller created fetch_status) = 120"
    using eq by (simp add: maxAttempts_def)
  show "elapsed (poller created fetch_status) = 120 * 2000"
    using eq by (simp add: maxAttempts_def pollInterval_def)
  show "\<forall>v. result (poller created fetch_status) \<noteq> Inr v"
    using eq by simp
next
  assume b: "created = Inr (Some d) \<and> result (poller created fetch_status) = Inr v"
  then have "result (poll_loop (fetch_status (task_url (id_task d))) 0 0 []) = Inr v"
    by (auto simp: poller_def)
  from poll_loop_result_completed [OF this]
  show "\<exists>i<120. \<exists>td. fetch_status (task_url (id_task d)) i = Inr (Some td) \<and>
                 status td = ''completed''"
    by (simp add: maxAttempts_def)
qed

theorem poller_times_out_witness:
  "result (poller (Inr (Some \<lparr>id_task = Some ''t1''\<rparr>))
     (\<lambda>url i. Inr (Some \<lparr>status = ''processing'', progress = Some 10, results = None\<rparr>)))
     = Inl (Error ''Task timeout'') \<and>
   attempts (poller (Inr (Some \<lparr>id_task = Some ''t1''\<rparr>))
     (\<lambda>url i. Inr (Some \<lparr>status = ''processing'', progress = Some 10, results = None\<rparr>)))
     = 120 \<and>
   elapsed (poller (Inr (Some \<lparr>id_task = Some ''t1''\<rparr>))
     (\<lambda>url i. Inr (Some \<lparr>status = ''processing'', progress = Some 10, results = None\<rparr>)))
     = 240000 \<and>
   (\<exists>i td. i < 120 \<and>
      (\<lambda>(url::string) (i::nat). Inr (Some \<lparr>status = ''completed'', progress = None,
                             results = Some [''url1'']\<rparr>)) (task_url (Some ''t1'')) i
         = Inr (Some td) \<and> status td = ''completed'')"
proof -
  let ?c = "Inr (Some \<lparr>id_task = Some ''t1''\<rparr>) :: js_error + created_task option"
  let ?fA = "\<lambda>(url::string) (i::nat).
     Inr (Some \<lparr>status = ''processing'', progress = Some 10, results = None\<rparr>)
       :: js_error + task_data option"
  let ?fB = "\<lambda>(url::string) (i::nat).
     Inr (Some \<lparr>status = ''completed'', progress = None, results = Some [''url1'']\<rparr>)
       :: js_error + task_data option"
  have "result (poller ?c ?fB) = Inr (Some ''url1'')"
    by (simp add: poller_def poll_loop.simps [of _ 0] maxAttempts_def index0_def)
  then show ?thesis
    using poller_times_out [of ?c "\<lparr>id_task = Some ''t1''\<rparr>" ?fA]
      poller_times_out [of ?c "\<lparr>id_task = Some ''t1''\<rparr>" ?fB "Some ''url1''"]
    by simp
qed

section \<open>Properties of the data access layer\<close>

text \<open>
  C3. \<open>getUserCountByDate(startTime)\<close> issues one query: the \<open>created_at\<close> column of the
  rows of \<open>users\<close> with \<open>created_at >= startTime\<close>, ordered ascending. On a read failure
  it returns \<open>undefined\<close>. On success, when every fetched timestamp is an ISO string: a
  date part \<open>d\<close> without the letter T, the letter T, and a time part, the result is a
  map that sends each date string to the number of fetched rows with that date part
  and has no other key. The rows are grouped by the date part as it is written in the
  timestamp, the text before the T. That is the UTC calendar date when the timestamps
  are written in UTC: the two rows \<open>2024-01-01T03:00:00Z\<close> and \<open>2024-01-01T23:00:00Z\<close>
  give the key \<open>2024-01-01\<close> the count 2.
\<close>

theorem getUserCountByDate_groups_by_date:
  "(let q = [From ''users'', Select (Some ''created_at''), Gte ''created_at'' startTime,
             Order ''created_at'' True];
        r = exec q
    in issued (getUserCountByDate exec startTime) = [q] \<and>
       (error r = Some e \<longrightarrow> ret (getUserCountByDate exec startTime) = Inr None) \<and>
       (error r = None \<and>
        data r = Some (map (\<lambda>(d, t). \<lparr>created_at = Some (d @ ''T'' @ t)\<rparr>) dts) \<and>
        (\<forall>(d, t)\<in>set dts. CHR ''T'' \<notin> set d) \<longrightarrow>
          (\<exists>m. ret (getUserCountByDate exec startTime) = Inr (Some m) \<and>
               map_of m None = None \<and>
               (\<forall>d. map_of m (Some d) =
                  (if count_list (map fst dts) d = 0 then None
                   else Some (count_list (map fst dts) d))))))"
proof -
  let ?q = "[From ''users'', Select (Some ''created_at''), Gte ''created_at'' startTime,
             Order ''created_at'' True]"
  let ?r = "exec ?q"
  have iss: "issued (getUserCountByDate exec startTime) = [?q]"
    by (simp add: getUserCountByDate_def Let_def split: option.splits sum.splits)
  have fail: "error ?r = Some e \<Longrightarrow> ret (getUserCountByDate exec startTime) = Inr None"
    by (simp add: getUserCountByDate_def Let_def)
  have ok: "\<exists>m. ret (getUserCountByDate exec startTime) = Inr (Some m) \<and>
               map_of m None = None \<and>
               (\<forall>d. map_of m (Some d) =
                  (if count_list (map fst dts) d = 0 then None
                   else Some (count_list (map fst dts) d)))"
    if e: "error ?r = None"
      and d: "data ?r = Some (map (\<lambda>(d, t). \<lparr>created_at = Some (d @ ''T'' @ t)\<rparr>) dts)"
      and iso: "\<forall>(d, t)\<in>set dts. CHR ''T'' \<notin> set d"
  proof -
    let ?tss = "map (\<lambda>(d, t). d @ ''T'' @ t) dts"
    have rows: "map (\<lambda>(d, t). \<lparr>created_at = Some (d @ ''T'' @ t)\<rparr>) dts =
                map (\<lambda>ts. \<lparr>created_at = Some ts\<rparr>) ?tss"
      by (simp add: case_prod_unfold)
    define cnt where "cnt k = length (filter (\<lambda>ts. date_of ts = k) ?tss)" for k
    from count_dates_lookup [of ?tss "[]"] obtain m where
      run: "count_dates (map (\<lambda>ts. \<lparr>created_at = Some ts\<rparr>) ?tss) [] = Inr m" and
      look: "\<And>k. map_of m k = (if cnt k = 0 then None else Some (cnt k))"
      unfolding cnt_def by (auto simp: get_or_0_def)
    have "length (filter (\<lambda>ts. date_of ts = k) (map (\<lambda>(d, t). d @ ''T'' @ t) dts)) =
               (case k of None \<Rightarrow> 0 | Some d \<Rightarrow> count_list (map fst dts) d)" for k
      using iso
    proof (induction dts)
      case Nil
      show ?case by (simp split: option.splits)
    next
      case (Cons p dts)
      obtain d t where p: "p = (d, t)" by (cases p)
      with Cons.prems have "CHR ''T'' \<notin> set d" by simp
      then have "date_of (d @ ''T'' @ t) = Some d" by (rule date_of_iso)
      with Cons p show ?case by (auto split: option.splits)
    qed
    then have cnt: "cnt k = (case k of None \<Rightarrow> 0 | Some d \<Rightarrow> count_list (map fst dts) d)" for k
      unfolding cnt_def .
    have run': "count_dates (map (\<lambda>(d, t). \<lparr>created_at = Some (d @ ''T'' @ t)\<rparr>) dts) [] = Inr m"
      using run by (simp only: rows)
    have "ret (getUserCountByDate exec startTime) = Inr (Some m)"
      using e d run' by (simp add: getUserCountByDate_def Let_def)
    moreover have "map_of m None = None"
      using look [of None] cnt [of None] by simp
    moreover have "map_of m (Some d) =
        (if count_list (map fst dts) d = 0 then None else Some (count_list (map fst dts) d))" for d
      using look [of "Some d"] cnt [of "Some d"] by simp
    ultimately show ?thesis by blast
  qed
  from iss fail ok show ?thesis by (simp add: Let_def)
qed

theorem getUserCountByDate_groups_by_date_witness:
  "(\<exists>m. ret (getUserCountByDate
              (answers_rows [\<lparr>created_at = Some ''2024-01-01T03:00:00Z''\<rparr>,
                             \<lparr>created_at = Some ''2024-01-01T23:00:00Z''\<rparr>])
              ''2023-12-01T00:00:00Z'') = Inr (Some m) \<and>
        map_of m (Some ''2024-01-01'') = Some 2 \<and>
        map_of m (Some ''2024-01-02'') = None) \<and>
   ret (getUserCountByDate (answers_error ''08006'') ''2023-12-01T00:00:00Z'') = Inr None"
proof -
  let ?ok = "answers_rows [\<lparr>created_at = Some ''2024-01-01T03:00:00Z''\<rparr>,
                           \<lparr>created_at = Some ''2024-01-01T23:00:00Z''\<rparr>]"
  let ?down = "answers_error ''08006'' :: query \<Rightarrow> created_row list response"
  let ?st = "''2023-12-01T00:00:00Z''"
  let ?dts = "[(''2024-01-01'', ''03:00:00Z''), (''2024-01-01'', ''23:00:00Z'')]"
  let ?q = "[From ''users'', Select (Some ''created_at''), Gte ''created_at'' ?st,
             Order ''created_at'' True]"
  have rows: "error (?ok ?q) = None \<and>
      data (?ok ?q) = Some (map (\<lambda>(d, t). \<lparr>created_at = Some (d @ ''T'' @ t)\<rparr>) ?dts) \<and>
      (\<forall>(d, t)\<in>set ?dts. CHR ''T'' \<notin> set d)"
    by (simp add: answers_rows_def)
  from getUserCountByDate_groups_by_date [where exec = ?ok and startTime = ?st and dts = ?dts]
    rows
  obtain m where run: "ret (getUserCountByDate ?ok ?st) = Inr (Some m)"
    and look: "\<And>d. map_of m (Some d) =
         (if count_list (map fst ?dts) d = 0 then None
          else Some (count_list (map fst ?dts) d))"
    unfolding Let_def by blast
  have "map_of m (Some ''2024-01-01'') = Some 2"
    using look [of "''2024-01-01''"] by simp
  moreover have "map_of m (Some ''2024-01-02'') = None"
    using look [of "''2024-01-02''"] by simp
  moreover have "error (?down ?q) = Some \<lparr>code = ''08006'', message = []\<rparr>"
    by (simp add: answers_error_def)
  with getUserCountByDate_groups_by_date [where exec = ?down and startTime = ?st
      and e = "\<lparr>code = ''08006'', message = []\<rparr>"]
  have "ret (getUserCountByDate ?down ?st) = Inr None"
    unfolding Let_def by blast
  ultimately show ?thesis using run by blast
qed

text \<open>
  The grouping is not by the UTC calendar date of every ISO timestamp, since the date
  part is not converted. The instants \<open>2024-01-02T01:00:00Z\<close> and
  \<open>2024-01-01T23:30:00-05:00\<close> (04:30 UTC on 2 January) both fall on the UTC date
  2024-01-02, and the map holds two keys with the count 1 each.
\<close>

theorem getUserCountByDate_offset_counterexample:
  "ret (getUserCountByDate
          (answers_rows [\<lparr>created_at = Some ''2024-01-02T01:00:00Z''\<rparr>,
                         \<lparr>created_at = Some ''2024-01-01T23:30:00-05:00''\<rparr>])
          ''2024-01-02T00:00:00Z'')
     = Inr (Some [(Some ''2024-01-02'', 1), (Some ''2024-01-01'', 1)])"
  by (simp add: getUserCountByDate_def answers_rows_def Let_def date_of_def index0_def
      get_or_0_def)

text \<open>
  C4. For integers \<open>page \<ge> 1\<close> and \<open>limit \<ge> 1\<close> with \<open>page * limit \<le> 2 ^ 53\<close>, where every
  step of the arithmetic is exact, \<open>getUsers(page, limit)\<close> issues one query: all
  columns of \<open>users\<close>, ordered by \<open>created_at\<close> descending, with the row range from
  offset \<open>(page - 1) * limit\<close> through \<open>(page - 1) * limit + limit - 1\<close> inclusive; an
  omitted argument takes its default, \<open>page = 1\<close> and \<open>limit = 50\<close>, so \<open>getUsers(2, 10)\<close>
  requests the offsets 10 through 19. On a read failure it returns the empty
  sequence, and otherwise the rows the store answers with.
\<close>

theorem getUsers_requests_page_range:
  "(let page = (case pa of None \<Rightarrow> 1 | Some p \<Rightarrow> p);
        limit = (case la of None \<Rightarrow> 50 | Some l \<Rightarrow> l);
        q = [From ''users'', Select (Some ''*''), Order ''created_at'' False,
             Range (Finite ((page - 1) * limit)) (Finite ((page - 1) * limit + limit - 1))];
        run = getUsers exec (map_option Finite pa) (map_option Finite la)
    in 1 \<le> page \<and> 1 \<le> limit \<and> page * limit \<le> 2 ^ 53 \<longrightarrow>
         issued run = [q] \<and>
         (error (exec q) = Some e \<longrightarrow> ret run = Inr (Some [])) \<and>
         (error (exec q) = None \<longrightarrow> ret run = Inr (data (exec q))))"
proof -
  define page where "page = (case pa of None \<Rightarrow> 1 | Some p \<Rightarrow> p)"
  define limit where "limit = (case la of None \<Rightarrow> 50 | Some l \<Rightarrow> l)"
  have args: "(case map_option Finite pa of None \<Rightarrow> Finite 1 | Some p \<Rightarrow> p) = Finite page"
    "(case map_option Finite la of None \<Rightarrow> Finite 50 | Some l \<Rightarrow> l) = Finite limit"
    by (simp_all add: page_def limit_def split: option.splits)
  have arith: "js_mul (js_sub (Finite page) (Finite 1)) (Finite limit) =
                 Finite ((page - 1) * limit) \<and>
               js_sub (js_add (Finite ((page - 1) * limit)) (Finite limit)) (Finite 1) =
                 Finite ((page - 1) * limit + limit - 1)"
    if b: "1 \<le> page" "1 \<le> limit" "page * limit \<le> 2 ^ 53"
  proof -
    have p1: "page \<le> page * limit" using b(1) b(2) by (simp add: mult_le_cancel_left1)
    have l1: "limit \<le> page * limit" using b(1) b(2) by (simp add: mult_le_cancel_right1)
    have off: "(page - 1) * limit = page * limit - limit" by (simp add: algebra_simps)
    have b0: "\<bar>1::int\<bar> \<le> 2 ^ 53" by simp
    have b1: "\<bar>page\<bar> \<le> 2 ^ 53" using b p1 by linarith
    have b2: "\<bar>limit\<bar> \<le> 2 ^ 53" using b l1 by linarith
    have b3: "\<bar>page - 1\<bar> \<le> 2 ^ 53" using b p1 by linarith
    have b4: "\<bar>(page - 1) * limit\<bar> \<le> 2 ^ 53" using b l1 unfolding off by linarith
    have b5: "\<bar>(page - 1) * limit + limit\<bar> \<le> 2 ^ 53"
      using b l1 unfolding off by linarith
    have b6: "\<bar>(page - 1) * limit + limit - 1\<bar> \<le> 2 ^ 53"
      using b l1 unfolding off by linarith
    have s1: "js_sub (Finite page) (Finite 1) = Finite (page - 1)"
      using b1 b0 b3 by (rule js_ops_exact)
    have s2: "js_mul (Finite (page - 1)) (Finite limit) = Finite ((page - 1) * limit)"
      using b3 b2 b4 by (rule js_ops_exact)
    have s3: "js_add (Finite ((page - 1) * limit)) (Finite limit) =
              Finite ((page - 1) * limit + limit)"
      using b4 b2 b5 by (rule js_ops_exact)
    have s4: "js_sub (Finite ((page - 1) * limit + limit)) (Finite 1) =
              Finite ((page - 1) * limit + limit - 1)"
      using b5 b0 b6 by (rule js_ops_exact)
    from s1 s2 s3 s4 show ?thesis by simp
  qed
  show ?thesis
    unfolding Let_def page_def [symmetric] limit_def [symmetric]
  proof (intro impI)
    let ?q = "[From ''users'', Select (Some ''*''), Order ''created_at'' False,
               Range (Finite ((page - 1) * limit)) (Finite ((page - 1) * limit + limit - 1))]"
    let ?run = "getUsers exec (map_option Finite pa) (map_option Finite la)"
    assume "1 \<le> page \<and> 1 \<le> limit \<and> page * limit \<le> 2 ^ 53"
    with arith have ar:
      "js_mul (js_sub (Finite page) (Finite 1)) (Finite limit) = Finite ((page - 1) * limit)"
      "js_sub (js_add (Finite ((page - 1) * limit)) (Finite limit)) (Finite 1) =
         Finite ((page - 1) * limit + limit - 1)"
      by blast+
    have run: "?run =
        (case error (exec ?q) of
           Some e \<Rightarrow>
             \<lparr>ret = Inr (Some []), issued = [?q], logged = [(''Error fetching users:'', e)]\<rparr>
         | None \<Rightarrow> \<lparr>ret = Inr (data (exec ?q)), issued = [?q], logged = []\<rparr>)"
      unfolding getUsers_def Let_def args ar ..
    show "issued ?run = [?q] \<and>
          (error (exec ?q) = Some e \<longrightarrow> ret ?run = Inr (Some [])) \<and>
          (error (exec ?q) = None \<longrightarrow> ret ?run = Inr (data (exec ?q)))"
      unfolding run by (simp split: option.splits)
  qed
qed

theorem getUsers_requests_page_range_witness:
  "issued (getUsers (answers_rows [alice_stored]) (Some (Finite 2)) (Some (Finite 10))) =
     [[From ''users'', Select (Some ''*''), Order ''created_at'' False,
       Range (Finite 10) (Finite 19)]] \<and>
   ret (getUsers (answers_rows [alice_stored]) (Some (Finite 2)) (Some (Finite 10)))
     = Inr (Some [alice_stored]) \<and>
   issued (getUsers (answers_error ''57014'') None None) =
     [[From ''users'', Select (Some ''*''), Order ''created_at'' False,
       Range (Finite 0) (Finite 49)]] \<and>
   ret (getUsers (answers_error ''57014'') None None) = Inr (Some [])"
  using getUsers_requests_page_range [where pa = "Some 2" and la = "Some 10"
      and exec = "answers_rows [alice_stored]"]
    getUsers_requests_page_range [where pa = None and la = None
      and exec = "answers_error ''57014''" and e = "\<lparr>code = ''57014'', message = []\<rparr>"]
  by (simp add: Let_def answers_rows_def answers_error_def)

text \<open>
  Without the bound the range is not the one of the formula for every \<open>page \<ge> 1\<close> and
  \<open>limit \<ge> 1\<close>: the arithmetic is on doubles. For \<open>getUsers(2, 2 ^ 53)\<close> the offset is
  \<open>2 ^ 53\<close> and the end of the range is \<open>2 ^ 54\<close>, where the formula gives \<open>2 ^ 54 - 1\<close>,
  which is no double and rounds to \<open>2 ^ 54\<close>.
\<close>

theorem getUsers_range_rounds_counterexample:
  "issued (getUsers (answers_rows []) (Some (Finite 2)) (Some (Finite 9007199254740992))) =
     [[From ''users'', Select (Some ''*''), Order ''created_at'' False,
       Range (Finite 9007199254740992) (Finite 18014398509481984)]] \<and>
   (2 - 1) * 9007199254740992 + 9007199254740992 - 1 = (18014398509481983 :: int)"
proof -
  have s1: "js_sub (Finite 2) (Finite 1) = Finite 1"
    using js_ops_exact(2) [of 2 1] by simp
  have s2: "js_mul (Finite 1) (Finite 9007199254740992) = Finite 9007199254740992"
    using js_ops_exact(3) [of 1 9007199254740992] by simp
  have s4: "js_sub (Finite 18014398509481984) (Finite 1) = Finite 18014398509481984"
    using js_round_2_54_less_1 by (simp add: js_sub_def)
  show ?thesis
    by (simp add: getUsers_def Let_def answers_rows_def s1 s2 js_round_2_54 s4)
qed

text \<open>
  C5. \<open>findUserByEmail(email, provider)\<close> issues one single-row read and always returns
  a value, never an error: \<open>null\<close> when the read reports the no-rows condition
  (code \<open>PGRST116\<close>, no data), \<open>null\<close> when it reports any other error, and the row when
  the read answers with the one matching row. The read filters on the email, and on
  the provider when a non-empty provider is given; an omitted provider and the empty
  string add no filter, and the row is then matched on the email alone.
\<close>

theorem findUserByEmail_null_not_error:
  "(let q = findUserByEmail_query mail provider; r = exec q
    in issued (findUserByEmail exec mail provider) = [q] \<and>
       (\<exists>v. ret (findUserByEmail exec mail provider) = Inr v) \<and>
       (error r = Some e \<and> code e = ''PGRST116'' \<and> data r = None \<longrightarrow>
          ret (findUserByEmail exec mail provider) = Inr None) \<and>
       (error r = Some e \<and> code e \<noteq> ''PGRST116'' \<longrightarrow>
          ret (findUserByEmail exec mail provider) = Inr None) \<and>
       (error r = None \<and> data r = Some row \<longrightarrow>
          ret (findUserByEmail exec mail provider) = Inr (Some row))) \<and>
   findUserByEmail_query mail None =
     [From ''users'', Select (Some ''*''), Eq ''email'' mail, Single] \<and>
   findUserByEmail_query mail (Some []) =
     [From ''users'', Select (Some ''*''), Eq ''email'' mail, Single] \<and>
   (p \<noteq> [] \<longrightarrow> findUserByEmail_query mail (Some p) =
     [From ''users'', Select (Some ''*''), Eq ''email'' mail, Eq ''signin_provider'' p, Single])"
  by (simp add: findUserByEmail_def findUserByEmail_query_def Let_def split: option.splits)

theorem findUserByEmail_null_not_error_witness:
  "ret (findUserByEmail (answers_error ''PGRST116'') ''alice@example.com'' (Some ''google''))
     = Inr None \<and>
   ret (findUserByEmail (answers_error ''08006'') ''alice@example.com'' (Some ''google''))
     = Inr None \<and>
   ret (findUserByEmail (answers_row alice_stored) ''alice@example.com'' (Some ''google''))
     = Inr (Some alice_stored) \<and>
   findUserByEmail_query ''alice@example.com'' (Some ''google'') =
     [From ''users'', Select (Some ''*''), Eq ''email'' ''alice@example.com'',
      Eq ''signin_provider'' ''google'', Single]"
  using findUserByEmail_null_not_error [where exec = "answers_error ''PGRST116''"
      and mail = "''alice@example.com''" and provider = "Some ''google''"
      and e = "\<lparr>code = ''PGRST116'', message = ''''\<rparr>" and p = "''google''"]
    findUserByEmail_null_not_error [where exec = "answers_error ''08006''"
      and mail = "''alice@example.com''" and provider = "Some ''google''"
      and e = "\<lparr>code = ''08006'', message = ''''\<rparr>" and p = "''google''"]
    findUserByEmail_null_not_error [where exec = "answers_row alice_stored"
      and mail = "''alice@example.com''" and provider = "Some ''google''"
      and row = alice_stored and p = "''google''"]
  by (simp add: Let_def answers_row_def answers_error_def)

text \<open>
  With the empty string as the provider the row returned need not match the pair of
  email and provider: a store that holds one row for the email, with the provider
  \<open>google\<close>, has no row for the email with an empty provider, and \<open>findUserByEmail\<close>
  returns the \<open>google\<close> row, not \<open>null\<close>.
\<close>

theorem findUserByEmail_empty_provider_counterexample:
  "ret (findUserByEmail alice_google_only ''alice@example.com'' (Some '''')) =
     Inr (Some alice_stored) \<and>
   signin_provider alice_stored = Some ''google'' \<and>
   alice_google_only [From ''users'', Select (Some ''*''), Eq ''email'' ''alice@example.com'',
                      Eq ''signin_provider'' '''', Single] =
     \<lparr>data = None, error = Some \<lparr>code = ''PGRST116'', message = ''''\<rparr>\<rparr>"
  by (simp add: findUserByEmail_def findUserByEmail_query_def Let_def alice_google_only_def
      alice_stored_def alice_def)

text \<open>
  C6. \<open>insertUser(user)\<close> issues one insert of the record that asks for the stored row
  back. On success it returns the row the store answers with, generated fields
  included; when the store reports a failure it throws that failure and returns
  nothing, neither a null nor an empty result.
\<close>

theorem insertUser_propagates_failure:
  "(let q = [From ''users'', Insert [usr], Select None, Single]; r = exec q
    in issued (insertUser exec usr) = [q] \<and>
       (error r = None \<and> data r = Some row \<longrightarrow> ret (insertUser exec usr) = Inr (Some row)) \<and>
       (error r = Some e \<longrightarrow>
          ret (insertUser exec usr) = Inl (PostgrestError e) \<and>
          (\<forall>v. ret (insertUser exec usr) \<noteq> Inr v)))"
  by (simp add: insertUser_def Let_def split: option.splits)

theorem insertUser_propagates_failure_witness:
  "ret (insertUser (answers_row alice_stored) alice) = Inr (Some alice_stored) \<and>
   ret (insertUser (answers_error ''23505'') alice)
     = Inl (PostgrestError \<lparr>code = ''23505'', message = ''''\<rparr>)"
  using insertUser_propagates_failure [where exec = "answers_row alice_stored"
      and usr = alice and row = alice_stored]
    insertUser_propagates_failure [where exec = "answers_error ''23505''"
      and usr = alice and e = "\<lparr>code = ''23505'', message = ''''\<rparr>"]
  by (simp add: Let_def answers_row_def answers_error_def)

text \<open>
  C7. \<open>getUsersByUuids([])\<close> returns the empty sequence without issuing any query. For a
  non-empty input it issues one query, for the rows of \<open>users\<close> whose \<open>uuid\<close> is in the
  given list, and returns exactly the rows the store answers with; when the read
  fails it returns the empty sequence.
\<close>

theorem getUsersByUuids_empty_no_query:
  "ret (getUsersByUuids exec (Some [])) = Inr (Some []) \<and>
   issued (getUsersByUuids exec (Some [])) = [] \<and>
   (us \<noteq> [] \<longrightarrow>
      (let q = [From ''users'', Select (Some ''*''), In ''uuid'' us]; r = exec q
       in issued (getUsersByUuids exec (Some us)) = [q] \<and>
          (error r = None \<longrightarrow> ret (getUsersByUuids exec (Some us)) = Inr (data r)) \<and>
          (error r = Some e \<longrightarrow> ret (getUsersByUuids exec (Some us)) = Inr (Some []))))"
  by (simp add: getUsersByUuids_def Let_def split: option.splits)

theorem getUsersByUuids_empty_no_query_witness:
  "issued (getUsersByUuids (answers_rows [alice_stored]) (Some [''u-1'', ''u-2'']))
     = [[From ''users'', Select (Some ''*''), In ''uuid'' [''u-1'', ''u-2'']]] \<and>
   ret (getUsersByUuids (answers_rows [alice_stored]) (Some [''u-1'', ''u-2'']))
     = Inr (Some [alice_stored]) \<and>
   ret (getUsersByUuids (answers_error ''08006'') (Some [''u-1'', ''u-2''])) = Inr (Some [])"
  using getUsersByUuids_empty_no_query [where exec = "answers_rows [alice_stored]"
      and us = "[''u-1'', ''u-2'']"]
    getUsersByUuids_empty_no_query [where exec = "answers_error ''08006''"
      and us = "[''u-1'', ''u-2'']" and e = "\<lparr>code = ''08006'', message = ''''\<rparr>"]
  by (simp add: Let_def answers_rows_def answers_error_def)

text \<open>
  C8. \<open>updateUser(uuid, updates)\<close> issues one update of the row whose \<open>uuid\<close> matches,
  with the given partial fields, and asks for the updated row back. It returns that
  row on success and \<open>null\<close> on any failure the store reports; it never throws.
\<close>

theorem updateUser_null_on_failure:
  "(let q = [From ''users'', Update updates, Eq ''uuid'' uid, Select None, Single]; r = exec q
    in issued (updateUser exec uid updates) = [q] \<and>
       (\<exists>v. ret (updateUser exec uid updates) = Inr v) \<and>
       (error r = None \<and> data r = Some row \<longrightarrow>
          ret (updateUser exec uid updates) = Inr (Some row)) \<and>
       (error r = Some e \<longrightarrow> ret (updateUser exec uid updates) = Inr None))"
  by (simp add: updateUser_def Let_def split: option.splits)

theorem updateUser_null_on_failure_witness:
  "ret (updateUser (answers_row (alice_stored\<lparr>nickname := ''alice2''\<rparr>)) ''u-1'' rename_alice)
     = Inr (Some (alice_stored\<lparr>nickname := ''alice2''\<rparr>)) \<and>
   ret (updateUser (answers_error ''PGRST116'') ''u-404'' rename_alice) = Inr None"
  using updateUser_null_on_failure [where exec = "answers_row (alice_stored\<lparr>nickname := ''alice2''\<rparr>)"
      and uid = "''u-1''" and updates = rename_alice
      and row = "alice_stored\<lparr>nickname := ''alice2''\<rparr>"]
    updateUser_null_on_failure [where exec = "answers_error ''PGRST116''"
      and uid = "''u-404''" and updates = rename_alice
      and e = "\<lparr>code = ''PGRST116'', message = ''''\<rparr>"]
  by (simp add: Let_def answers_row_def answers_error_def)

text \<open>
  C9. When more than one row of the table matches the email (and the provider, if a
  non-empty one is given), \<open>findUserByEmail\<close> returns \<open>null\<close>, not one of the matching
  rows: the single-row read answers with the error of code \<open>PGRST116\<close>, the code it
  also gives for no row, and with no data, and the function returns that data without
  logging. The same holds for \<open>findUserByUuid\<close> when more than one row has the uuid.
\<close>

theorem find_returns_null_when_several_rows_match:
  "(1 < length (filter (\<lambda>u. email u = mail \<and>
                  (case provider of None \<Rightarrow> True
                   | Some p \<Rightarrow> p = [] \<or> signin_provider u = Some p)) tbl) \<longrightarrow>
      ret (findUserByEmail (table_store tbl) mail provider) = Inr None \<and>
      logged (findUserByEmail (table_store tbl) mail provider) = [] \<and>
      table_store tbl (findUserByEmail_query mail provider) =
        \<lparr>data = None, error = Some several_or_no_rows\<rparr>) \<and>
   (1 < length (filter (\<lambda>u. uuid u = Some uid) tbl) \<longrightarrow>
      ret (findUserByUuid (table_store tbl) uid) = Inr None \<and>
      logged (findUserByUuid (table_store tbl) uid) = [] \<and>
      table_store tbl [From ''users'', Select (Some ''*''), Eq ''uuid'' uid, Single] =
        \<lparr>data = None, error = Some several_or_no_rows\<rparr>)"
proof (intro conjI impI)
  assume "1 < length (filter (\<lambda>u. email u = mail \<and>
                  (case provider of None \<Rightarrow> True
                   | Some p \<Rightarrow> p = [] \<or> signin_provider u = Some p)) tbl)"
  then have r: "table_store tbl (findUserByEmail_query mail provider) =
        \<lparr>data = None, error = Some several_or_no_rows\<rparr>"
    unfolding table_store_def findUserByEmail_query_matches by (rule single_read_several)
  then show "table_store tbl (findUserByEmail_query mail provider) =
        \<lparr>data = None, error = Some several_or_no_rows\<rparr>" .
  from r show "ret (findUserByEmail (table_store tbl) mail provider) = Inr None"
    by (simp add: findUserByEmail_def Let_def several_or_no_rows_def)
  from r show "logged (findUserByEmail (table_store tbl) mail provider) = []"
    by (simp add: findUserByEmail_def Let_def several_or_no_rows_def)
next
  assume "1 < length (filter (\<lambda>u. uuid u = Some uid) tbl)"
  then have r: "table_store tbl [From ''users'', Select (Some ''*''), Eq ''uuid'' uid, Single] =
        \<lparr>data = None, error = Some several_or_no_rows\<rparr>"
    unfolding table_store_def by (simp add: single_read_several)
  then show "table_store tbl [From ''users'', Select (Some ''*''), Eq ''uuid'' uid, Single] =
        \<lparr>data = None, error = Some several_or_no_rows\<rparr>" .
  from r show "ret (findUserByUuid (table_store tbl) uid) = Inr None"
    by (simp add: findUserByUuid_def Let_def several_or_no_rows_def)
  from r show "logged (findUserByUuid (table_store tbl) uid) = []"
    by (simp add: findUserByUuid_def Let_def several_or_no_rows_def)
qed

theorem find_returns_null_when_several_rows_match_witness:
  "ret (findUserByEmail (table_store [alice_stored, alice_github]) ''alice@example.com'' None)
     = Inr None \<and>
   ret (findUserByUuid (table_store [alice_stored, alice_twin]) ''u-1'') = Inr None"
proof -
  have e: "1 < length (filter (\<lambda>u. email u = ''alice@example.com'' \<and>
                  (case None of None \<Rightarrow> True
                   | Some p \<Rightarrow> p = [] \<or> signin_provider u = Some p))
                  [alice_stored, alice_github])"
    by (simp add: alice_stored_def alice_github_def alice_def)
  have u: "1 < length (filter (\<lambda>u. uuid u = Some ''u-1'') [alice_stored, alice_twin])"
    by (simp add: alice_stored_def alice_twin_def alice_def)
  from find_returns_null_when_several_rows_match
         [where tbl = "[alice_stored, alice_github]" and mail = "''alice@example.com''"
            and provider = None] e
       find_returns_null_when_several_rows_match
         [where tbl = "[alice_stored, alice_twin]" and uid = "''u-1''"] u
  show ?thesis by blast
qed

text \<open>
  The cause is not an error other than the no-rows one: for two rows with the same
  email the read reports the code \<open>PGRST116\<close>, and \<open>findUserByEmail\<close> does not take the
  branch that logs the error.
\<close>

theorem find_several_rows_error_code_counterexample:
  "error (table_store [alice_stored, alice_github]
            (findUserByEmail_query ''alice@example.com'' None)) = Some several_or_no_rows \<and>
   code several_or_no_rows = ''PGRST116'' \<and>
   logged (findUserByEmail (table_store [alice_stored, alice_github])
             ''alice@example.com'' None) = []"
  by (simp add: findUserByEmail_def findUserByEmail_query_def Let_def table_store_def
      single_read_def several_or_no_rows_def alice_stored_def alice_github_def alice_def)

text \<open>
  C10. Whenever \<open>getUserCountByDate(startTime)\<close> returns a map, the read succeeded with
  some rows, the counts of the map sum to the number of those rows, every count is at
  least 1 (so no key has the count 0), and no key occurs twice.
\<close>

theorem getUserCountByDate_counts_positive:
  assumes "ret (getUserCountByDate exec startTime) = Inr (Some m)"
  shows "\<exists>rows. error (exec [From ''users'', Select (Some ''created_at''),
                               Gte ''created_at'' startTime, Order ''created_at'' True]) = None \<and>
           data (exec [From ''users'', Select (Some ''created_at''),
                       Gte ''created_at'' startTime, Order ''created_at'' True]) = Some rows \<and>
           sum_list (map snd m) = length rows \<and>
           (\<forall>p\<in>set m. 1 \<le> snd p) \<and>
           distinct (map fst m)"
proof -
  let ?r = "exec [From ''users'', Select (Some ''created_at''),
                  Gte ''created_at'' startTime, Order ''created_at'' True]"
  from assms have e: "error ?r = None"
    by (auto simp: getUserCountByDate_def Let_def split: option.splits sum.splits)
  from assms e obtain rows where d: "data ?r = Some rows"
    by (cases "data ?r") (auto simp: getUserCountByDate_def Let_def)
  from assms e d have "count_dates rows [] = Inr m"
    by (auto simp: getUserCountByDate_def Let_def split: sum.splits)
  from count_dates_inv [OF this] e d show ?thesis by simp
qed

theorem getUserCountByDate_counts_positive_witness:
  "ret (getUserCountByDate
          (answers_rows [\<lparr>created_at = Some ''2024-01-01T03:00:00Z''\<rparr>,
                         \<lparr>created_at = Some ''2024-01-02T10:30:00Z''\<rparr>,
                         \<lparr>created_at = Some ''2024-01-01T23:00:00Z''\<rparr>])
          ''2024-01-01T00:00:00Z'')
     = Inr (Some [(Some ''2024-01-01'', 2), (Some ''2024-01-02'', 1)]) \<and>
   sum_list (map snd [(Some ''2024-01-01'', 2::nat), (Some ''2024-01-02'', 1)]) = 3"
proof -
  let ?exec = "answers_rows [\<lparr>created_at = Some ''2024-01-01T03:00:00Z''\<rparr>,
                         \<lparr>created_at = Some ''2024-01-02T10:30:00Z''\<rparr>,
                         \<lparr>created_at = Some ''2024-01-01T23:00:00Z''\<rparr>]"
  have h: "ret (getUserCountByDate ?exec ''2024-01-01T00:00:00Z'')
     = Inr (Some [(Some ''2024-01-01'', 2), (Some ''2024-01-02'', 1)])"
    by (simp add: getUserCountByDate_def answers_rows_def Let_def date_of_def index0_def
        get_or_0_def)
  from getUserCountByDate_counts_positive [OF h] h show ?thesis
    by (simp add: answers_rows_def)
qed

end
